theory Spec2Isabelle
  imports Main
begin

section \<open>Python primitives used by the program\<close>

text \<open>
  The program is \<^verbatim>\<open>src/main.py\<close>. Exceptions are values of type \<open>error\<close>; a function of
  the source that can raise returns \<open>error + 'a\<close> (\<open>Inl\<close> is the raised exception), and a
  method that mutates its object returns the object's state after the call beside that
  outcome, so that the state at the point of a raise can be read off.

  A \<open>char\<close> stands for one character of a Python \<^verbatim>\<open>str\<close>; the five HL7 separators and the
  segment delimiter of the source are all strings of length one, and are modelled as
  characters. Positions are Python integers, hence \<open>int\<close>.
\<close>

datatype error = ValueError string | IndexError

text \<open>The values handed to the segment methods (\<^verbatim>\<open>Optional[Any]\<close>): \<^verbatim>\<open>None\<close>, strings, integers
  and booleans, with Python's \<^verbatim>\<open>str()\<close> and truth value. \<^verbatim>\<open>str()\<close> of an integer raises
  \<^verbatim>\<open>ValueError\<close> when the integer has more than \<^verbatim>\<open>sys.get_int_max_str_digits()\<close> decimal
  digits, the sign not counted; the limit is 4300 unless the interpreter is configured
  otherwise. An integer has more than \<open>k\<close> digits exactly when its absolute value is at
  least \<open>10 ^ k\<close>.\<close>

datatype pyval = PyNone | PyStr string | PyInt int | PyBool bool

fun str_nat :: "nat \<Rightarrow> string" where
  "str_nat n =
     (if n < 10 then [''0123456789'' ! n]
      else str_nat (n div 10) @ [''0123456789'' ! (n mod 10)])"

definition int_max_str_digits :: nat where
  "int_max_str_digits = 4300"

definition digits_limit_error :: error where
  "digits_limit_error =
     ValueError
       (''Exceeds the limit (4300 digits) for integer string conversion; ''
        @ ''use sys.set_int_max_str_digits() to increase the limit'')"

fun py_str :: "pyval \<Rightarrow> error + string" where
  "py_str PyNone = Inr ''None''"
| "py_str (PyStr s) = Inr s"
| "py_str (PyInt i) =
     (if 10 ^ int_max_str_digits \<le> \<bar>i\<bar>
      then Inl digits_limit_error
      else if i < 0 then Inr (CHR ''-'' # str_nat (nat (- i)))
      else Inr (str_nat (nat i)))"
| "py_str (PyBool b) = Inr (if b then ''True'' else ''False'')"

fun truthy :: "pyval \<Rightarrow> bool" where
  "truthy PyNone = False"
| "truthy (PyStr s) = (s \<noteq> [])"
| "truthy (PyInt i) = (i \<noteq> 0)"
| "truthy (PyBool b) = b"

text \<open>List indexing \<^verbatim>\<open>xs[i]\<close> and item assignment \<^verbatim>\<open>xs[i] = v\<close>: a negative index counts
  from the end, an index out of range raises \<^verbatim>\<open>IndexError\<close>.\<close>

definition py_index :: "'a list \<Rightarrow> int \<Rightarrow> error + nat" where
  "py_index xs i =
     (let n = int (length xs); j = (if i < 0 then i + n else i)
      in if 0 \<le> j \<and> j < n then Inr (nat j) else Inl IndexError)"

definition getitem :: "'a list \<Rightarrow> int \<Rightarrow> error + 'a" where
  "getitem xs i = (case py_index xs i of Inl e \<Rightarrow> Inl e | Inr j \<Rightarrow> Inr (xs ! j))"

definition setitem :: "'a list \<Rightarrow> int \<Rightarrow> 'a \<Rightarrow> error + 'a list" where
  "setitem xs i v = (case py_index xs i of Inl e \<Rightarrow> Inl e | Inr j \<Rightarrow> Inr (xs[j := v]))"

text \<open>\<^verbatim>\<open>s.split(sep)\<close>, \<^verbatim>\<open>sep.join(xs)\<close> and \<^verbatim>\<open>s.replace(old, new)\<close> for a separator of one
  character; \<^verbatim>\<open>"".split(sep)\<close> is \<^verbatim>\<open>[""]\<close>.\<close>

fun str_split :: "char \<Rightarrow> string \<Rightarrow> string list" where
  "str_split sep [] = [[]]"
| "str_split sep (c # cs) =
     (if c = sep then [] # str_split sep cs
      else (case str_split sep cs of
              [] \<Rightarrow> [[c]]
            | w # ws \<Rightarrow> (c # w) # ws))"

fun str_join :: "string \<Rightarrow> string list \<Rightarrow> string" where
  "str_join sep [] = []"
| "str_join sep [x] = x"
| "str_join sep (x # y # ys) = x @ sep @ str_join sep (y # ys)"

definition str_replace :: "char \<Rightarrow> string \<Rightarrow> string \<Rightarrow> string" where
  "str_replace old new s = concat (map (\<lambda>c. if c = old then new else [c]) s)"

definition startswith :: "string \<Rightarrow> string \<Rightarrow> bool" where
  "startswith s p = (take (length p) s = p)"

text \<open>A dict as an association list in insertion order: storing under a key that is
  present replaces its value where it stands, as a dict literal with a repeated key does.\<close>

fun dict_set :: "('k \<times> 'v) list \<Rightarrow> 'k \<Rightarrow> 'v \<Rightarrow> ('k \<times> 'v) list" where
  "dict_set [] k v = [(k, v)]"
| "dict_set ((k', v') # kvs) k v =
     (if k' = k then (k', v) # kvs else (k', v') # dict_set kvs k v)"

section \<open>Encoding characters\<close>

definition SEGMENT_DELIMITER :: char where
  "SEGMENT_DELIMITER = CHR 0x0D"

record HL7EncodingCharacters =
  field_separator :: char
  component_separator :: char
  repetition_separator :: char
  escape_character :: char
  subcomponent_separator :: char

text \<open>The constructor reads the module constant \<^verbatim>\<open>HL7_SEPARATORS\<close>:
  \<^verbatim>\<open>|\<close>, \<^verbatim>\<open>^\<close>, \<^verbatim>\<open>~\<close>, the backslash (character \<open>0x5C\<close>) and \<^verbatim>\<open>&\<close>.\<close>

definition HL7EncodingCharacters_init :: HL7EncodingCharacters where
  "HL7EncodingCharacters_init =
     \<lparr>field_separator = CHR ''|'',
      component_separator = CHR ''^'',
      repetition_separator = CHR ''~'',
      escape_character = CHR 0x5C,
      subcomponent_separator = CHR ''&''\<rparr>"

text \<open>\<^verbatim>\<open>HL7EncodingCharacters.__str__\<close>.\<close>

definition encoding_str :: "HL7EncodingCharacters \<Rightarrow> string" where
  "encoding_str enc =
     [field_separator enc, component_separator enc, repetition_separator enc,
      escape_character enc, subcomponent_separator enc]"

section \<open>Segments\<close>

record HL7Segment =
  segment_id :: string
  encoding :: HL7EncodingCharacters
  seg_fields :: "string list"

definition HL7Segment_init :: "string \<Rightarrow> HL7EncodingCharacters \<Rightarrow> HL7Segment" where
  "HL7Segment_init sid enc = \<lparr>segment_id = sid, encoding = enc, seg_fields = []\<rparr>"

text \<open>\<^verbatim>\<open>_escape_hl7\<close>: the dict literal \<^verbatim>\<open>escape_map\<close>, then one \<^verbatim>\<open>replace\<close> per entry in
  the dict's order, each on the result of the one before.\<close>

definition escape_map :: "HL7EncodingCharacters \<Rightarrow> (char \<times> string) list" where
  "escape_map enc =
     (let e = escape_character enc
      in foldl (\<lambda>d (k, v). dict_set d k v) []
           [(field_separator enc, [e, CHR ''F'', e]),
            (component_separator enc, [e, CHR ''S'', e]),
            (repetition_separator enc, [e, CHR ''R'', e]),
            (escape_character enc, [e, CHR ''E'', e]),
            (subcomponent_separator enc, [e, CHR ''T'', e])])"

definition escape_hl7 :: "HL7EncodingCharacters \<Rightarrow> string \<Rightarrow> string" where
  "escape_hl7 enc val =
     (if val = [] then []
      else foldl (\<lambda>result (ch, escape_seq). str_replace ch escape_seq result)
             val (escape_map enc))"

text \<open>The loop \<^verbatim>\<open>while len(self.fields) < position: self.fields.append("")\<close>.\<close>

function pad_fields :: "string list \<Rightarrow> int \<Rightarrow> string list" where
  "pad_fields fs position =
     (if int (length fs) < position then pad_fields (fs @ [[]]) position else fs)"
  by pat_completeness auto
termination
  by (relation "measure (\<lambda>(fs, position). nat (position - int (length fs)))") auto

text \<open>\<^verbatim>\<open>add_field\<close>: the padding loop runs first, so when \<^verbatim>\<open>str(value)\<close> raises the list
  is already padded.\<close>

definition add_field :: "pyval \<Rightarrow> int \<Rightarrow> HL7Segment \<Rightarrow> (error + unit) \<times> HL7Segment" where
  "add_field val position s =
     (let s1 = s\<lparr>seg_fields := pad_fields (seg_fields s) position\<rparr>
      in if val = PyNone then (Inr (), s1\<lparr>seg_fields := seg_fields s1 @ [[]]\<rparr>)
         else (case py_str val of
                 Inl e \<Rightarrow> (Inl e, s1)
               | Inr str_value \<Rightarrow>
                   (Inr (), s1\<lparr>seg_fields :=
                              seg_fields s1 @ [escape_hl7 (encoding s1) str_value]\<rparr>)))"

text \<open>\<^verbatim>\<open>set_field\<close>: in the assignment \<^verbatim>\<open>self.fields[position - 1] = ...\<close> the right-hand side
  is evaluated before the list is changed.\<close>

definition set_field :: "pyval \<Rightarrow> int \<Rightarrow> HL7Segment \<Rightarrow> (error + unit) \<times> HL7Segment" where
  "set_field val position s =
     (if position < 1 then (Inl (ValueError ''Position must be >= 1''), s)
      else if int (length (seg_fields s)) < position then add_field val position s
      else if val = PyNone then
        (case setitem (seg_fields s) (position - 1) [] of
           Inl e \<Rightarrow> (Inl e, s)
         | Inr fs \<Rightarrow> (Inr (), s\<lparr>seg_fields := fs\<rparr>))
      else
        (case py_str val of
           Inl e \<Rightarrow> (Inl e, s)
         | Inr str_value \<Rightarrow>
             (case setitem (seg_fields s) (position - 1)
                     (escape_hl7 (encoding s) str_value) of
                Inl e \<Rightarrow> (Inl e, s)
              | Inr fs \<Rightarrow> (Inr (), s\<lparr>seg_fields := fs\<rparr>))))"

text \<open>The loop \<^verbatim>\<open>while len(components) < comp_pos: components.append("")\<close> is the same
  loop on another list.\<close>

definition add_component ::
  "pyval \<Rightarrow> int \<Rightarrow> int \<Rightarrow> HL7Segment \<Rightarrow> (error + unit) \<times> HL7Segment" where
  "add_component val field_pos comp_pos s =
     (if field_pos < 1 \<or> comp_pos < 1 then (Inl (ValueError ''Positions must be >= 1''), s)
      else
        (case (if int (length (seg_fields s)) < field_pos
               then add_field (PyStr []) field_pos s else (Inr (), s)) of
           (Inl e, s1) \<Rightarrow> (Inl e, s1)
         | (Inr u, s1) \<Rightarrow>
             (case getitem (seg_fields s1) (field_pos - 1) of
                Inl e \<Rightarrow> (Inl e, s1)
              | Inr field \<Rightarrow>
                  (let components =
                         (if field \<noteq> []
                          then str_split (component_separator (encoding s1)) field
                          else []);
                       padded = pad_fields components comp_pos
                   in (case (if truthy val
                             then map_sum id (escape_hl7 (encoding s1)) (py_str val)
                             else Inr []) of
                         Inl e \<Rightarrow> (Inl e, s1)
                       | Inr new \<Rightarrow>
                           (case setitem padded (comp_pos - 1) new of
                              Inl e \<Rightarrow> (Inl e, s1)
                            | Inr comps \<Rightarrow>
                                (case setitem (seg_fields s1) (field_pos - 1)
                                        (str_join [component_separator (encoding s1)] comps) of
                                   Inl e \<Rightarrow> (Inl e, s1)
                                 | Inr fs \<Rightarrow> (Inr (), s1\<lparr>seg_fields := fs\<rparr>))))))))"

definition build :: "HL7Segment \<Rightarrow> string" where
  "build s =
     segment_id s @ [field_separator (encoding s)]
       @ str_join [field_separator (encoding s)] (seg_fields s)"

section \<open>The message builder\<close>

datatype MessageType = ORM | ORU | ADT | RDE

fun MessageType_value :: "MessageType \<Rightarrow> string" where
  "MessageType_value ORM = ''ORM^O01''"
| "MessageType_value ORU = ''ORU^R01''"
| "MessageType_value ADT = ''ADT^A01''"
| "MessageType_value RDE = ''RDE^O11''"

record HL7Config =
  version :: string
  message_type :: MessageType
  sending_application :: string
  sending_facility :: string
  receiving_application :: string
  receiving_facility :: string
  charset :: string
  country_code :: string
  processing_id :: string
  message_control_id :: "string option"
  include_msh :: bool
  include_bhs :: bool
  include_fhs :: bool
  auto_generate_control_id :: bool
  max_field_length :: int
  escape_xml_chars :: bool

text \<open>The dataclass's default values.\<close>

definition HL7Config_init :: HL7Config where
  "HL7Config_init =
     \<lparr>version = ''2.5'',
      message_type = RDE,
      sending_application = ''PRESCRIPTION_SYSTEM'',
      sending_facility = ''HEALTHCARE_PROVIDER'',
      receiving_application = ''PHARMACY_SYSTEM'',
      receiving_facility = ''PHARMACY'',
      charset = ''UTF-8'',
      country_code = ''USA'',
      processing_id = ''P'',
      message_control_id = None,
      include_msh = True,
      include_bhs = False,
      include_fhs = False,
      auto_generate_control_id = True,
      max_field_length = 200,
      escape_xml_chars = True\<rparr>"

text \<open>The builder's attributes; \<open>b_encoding\<close> and \<open>b_message_control_id\<close> are the
  attributes \<^verbatim>\<open>encoding\<close> and \<^verbatim>\<open>message_control_id\<close> of \<^verbatim>\<open>HL7Builder\<close>. The two readings
  of the clock are parameters: \<open>generated\<close> is what \<^verbatim>\<open>_generate_control_id()\<close> returns
  and \<open>now\<close> is \<^verbatim>\<open>_format_hl7_date(datetime.now())\<close>.\<close>

record HL7Builder =
  config :: HL7Config
  b_encoding :: HL7EncodingCharacters
  segments :: "HL7Segment list"
  b_message_control_id :: string

definition HL7Builder_init :: "string \<Rightarrow> HL7Config \<Rightarrow> HL7Builder" where
  "HL7Builder_init generated cfg =
     \<lparr>config = cfg,
      b_encoding = HL7EncodingCharacters_init,
      segments = [],
      b_message_control_id =
        (case message_control_id cfg of
           None \<Rightarrow> generated
         | Some m \<Rightarrow> if m \<noteq> [] then m else generated)\<rparr>"

text \<open>\<^verbatim>\<open>add_msh_segment\<close> calls \<^verbatim>\<open>msh.add_field\<close> nineteen times in a row; \<open>msh_fields\<close> lists
  the arguments of the calls in their order and \<open>add_fields\<close> makes the calls one after
  the other, stopping at the first that raises.\<close>

definition msh_fields :: "string \<Rightarrow> HL7Builder \<Rightarrow> (pyval \<times> int) list" where
  "msh_fields now b =
     [(PyStr (encoding_str (b_encoding b)), 2),
      (PyStr (sending_application (config b)), 3),
      (PyStr (sending_facility (config b)), 4),
      (PyStr (receiving_application (config b)), 5),
      (PyStr (receiving_facility (config b)), 6),
      (PyStr now, 7),
      (PyStr [], 8),
      (PyStr (MessageType_value (message_type (config b))), 9),
      (PyStr (b_message_control_id b), 10),
      (PyStr (processing_id (config b)), 11),
      (PyStr (version (config b)), 12),
      (PyStr [], 13),
      (PyStr [], 14),
      (PyStr ''AL'', 15),
      (PyStr ''AL'', 16),
      (PyStr (country_code (config b)), 17),
      (PyStr (charset (config b)), 18),
      (PyStr [], 19),
      (PyStr [], 20)]"

fun add_fields :: "(pyval \<times> int) list \<Rightarrow> HL7Segment \<Rightarrow> (error + unit) \<times> HL7Segment" where
  "add_fields [] s = (Inr (), s)"
| "add_fields ((val, position) # rest) s =
     (case add_field val position s of
        (Inl e, s1) \<Rightarrow> (Inl e, s1)
      | (Inr u, s1) \<Rightarrow> add_fields rest s1)"

definition msh_segment :: "string \<Rightarrow> HL7Builder \<Rightarrow> (error + unit) \<times> HL7Segment" where
  "msh_segment now b =
     add_fields (msh_fields now b) (HL7Segment_init ''MSH'' (b_encoding b))"

text \<open>\<^verbatim>\<open>add_msh_segment\<close>: the segment built above, then \<^verbatim>\<open>self.segments.append(msh)\<close>.\<close>

definition add_msh_segment :: "string \<Rightarrow> HL7Builder \<Rightarrow> (error + unit) \<times> HL7Builder" where
  "add_msh_segment now b =
     (case msh_segment now b of
        (Inl e, msh) \<Rightarrow> (Inl e, b)
      | (Inr u, msh) \<Rightarrow> (Inr (), b\<lparr>segments := segments b @ [msh]\<rparr>))"

text \<open>\<^verbatim>\<open>build_message\<close> returns the text and leaves the builder as the second component.
  \<^verbatim>\<open>any(s.segment_id == "MSH" for s in self.segments)\<close> is \<open>list_ex\<close>.\<close>

definition build_message :: "string \<Rightarrow> HL7Builder \<Rightarrow> (error + string) \<times> HL7Builder" where
  "build_message now b =
     (case (if include_msh (config b)
            then (if \<not> list_ex (\<lambda>s. segment_id s = ''MSH'') (segments b)
                  then add_msh_segment now b else (Inr (), b))
            else (Inr (), b)) of
        (Inl e, b1) \<Rightarrow> (Inl e, b1)
      | (Inr u, b1) \<Rightarrow> (Inr (str_join [SEGMENT_DELIMITER] (map build (segments b1))), b1))"

section \<open>The response reader\<close>

text \<open>The result dict: the keys \<^verbatim>\<open>segments\<close>, \<^verbatim>\<open>acknowledgment\<close> and \<^verbatim>\<open>status\<close> are there from
  the start; \<^verbatim>\<open>message_type\<close> and \<^verbatim>\<open>message_control_id\<close> are stored by an \<^verbatim>\<open>MSH\<close> line
  (\<open>None\<close>: the key is absent). The value of \<^verbatim>\<open>acknowledgment\<close> is \<^verbatim>\<open>None\<close> or a dict of three
  strings.\<close>

record Acknowledgment =
  code :: string
  message :: string
  control_id :: string

record ParseResult =
  r_segments :: "string list"
  acknowledgment :: "Acknowledgment option"
  status :: string
  r_message_type :: "string option"
  r_message_control_id :: "string option"

definition initial_result :: ParseResult where
  "initial_result =
     \<lparr>r_segments = [], acknowledgment = None, status = ''unknown'',
      r_message_type = None, r_message_control_id = None\<rparr>"

text \<open>\<^verbatim>\<open>xs[i] if len(xs) > i else ""\<close>.\<close>

definition item_or_empty :: "string list \<Rightarrow> nat \<Rightarrow> error + string" where
  "item_or_empty xs i = (if length xs > i then getitem xs (int i) else Inr [])"

text \<open>The branch of the loop body for an \<^verbatim>\<open>MSA\<close> line.\<close>

definition parse_msa :: "ParseResult \<Rightarrow> string \<Rightarrow> error + ParseResult" where
  "parse_msa r line =
     (let parts = str_split (CHR ''|'') line
      in if length parts \<ge> 2 then
           (case getitem parts 1 of
              Inl e \<Rightarrow> Inl e
            | Inr c \<Rightarrow>
                (case item_or_empty parts 2 of
                   Inl e \<Rightarrow> Inl e
                 | Inr m \<Rightarrow>
                     (case item_or_empty parts 3 of
                        Inl e \<Rightarrow> Inl e
                      | Inr cid \<Rightarrow>
                          (let r1 = r\<lparr>acknowledgment :=
                                        Some \<lparr>code = c, message = m, control_id = cid\<rparr>\<rparr>
                           in Inr (if c = ''AA'' then r1\<lparr>status := ''accepted''\<rparr>
                                   else if c = ''AE'' then r1\<lparr>status := ''error''\<rparr>
                                   else if c = ''AR'' then r1\<lparr>status := ''rejected''\<rparr>
                                   else r1)))))
         else Inr r)"

text \<open>The branch of the loop body for an \<^verbatim>\<open>MSH\<close> line.\<close>

definition parse_msh :: "ParseResult \<Rightarrow> string \<Rightarrow> error + ParseResult" where
  "parse_msh r line =
     (case item_or_empty (str_split (CHR ''|'') line) 8 of
        Inl e \<Rightarrow> Inl e
      | Inr mt \<Rightarrow>
          (case item_or_empty (str_split (CHR ''|'') line) 9 of
             Inl e \<Rightarrow> Inl e
           | Inr cid \<Rightarrow>
               Inr (r\<lparr>r_message_type := Some mt, r_message_control_id := Some cid\<rparr>)))"

text \<open>One pass of the loop body: the branch, then \<^verbatim>\<open>result["segments"].append(line[:3])\<close>.\<close>

definition parse_line :: "ParseResult \<Rightarrow> string \<Rightarrow> error + ParseResult" where
  "parse_line r line =
     (case (if startswith line ''MSH'' then parse_msh r line
            else if startswith line ''MSA'' then parse_msa r line
            else Inr r) of
        Inl e \<Rightarrow> Inl e
      | Inr r1 \<Rightarrow> Inr (r1\<lparr>r_segments := r_segments r1 @ [take 3 line]\<rparr>))"

fun parse_lines :: "ParseResult \<Rightarrow> string list \<Rightarrow> error + ParseResult" where
  "parse_lines r [] = Inr r"
| "parse_lines r (line # rest) =
     (case parse_line r line of
        Inl e \<Rightarrow> Inl e
      | Inr r1 \<Rightarrow> parse_lines r1 rest)"

definition parse_hl7_response :: "string \<Rightarrow> error + ParseResult" where
  "parse_hl7_response hl7_message =
     parse_lines initial_result (str_split SEGMENT_DELIMITER hl7_message)"

section \<open>The acknowledgment codes of a response\<close>

text \<open>Two notions for stating what the reader computes. The acknowledgment codes of a
  response are the second \<^verbatim>\<open>|\<close>-separated parts of the lines that begin with \<^verbatim>\<open>MSA\<close> and have
  such a part, in the order of the lines. The status that goes with a code is \<^verbatim>\<open>accepted\<close>
  for \<^verbatim>\<open>AA\<close>, \<^verbatim>\<open>error\<close> for \<^verbatim>\<open>AE\<close>, \<^verbatim>\<open>rejected\<close> for \<^verbatim>\<open>AR\<close>, and none for any other code.\<close>

definition line_codes :: "string list \<Rightarrow> string list" where
  "line_codes lines =
     map (\<lambda>line. str_split (CHR ''|'') line ! 1)
       (filter (\<lambda>line. startswith line ''MSA'' \<and> 2 \<le> length (str_split (CHR ''|'') line))
          lines)"

definition ack_codes :: "string \<Rightarrow> string list" where
  "ack_codes hl7_message = line_codes (str_split SEGMENT_DELIMITER hl7_message)"

definition code_status :: "string \<Rightarrow> string option" where
  "code_status c =
     (if c = ''AA'' then Some ''accepted''
      else if c = ''AE'' then Some ''error''
      else if c = ''AR'' then Some ''rejected''
      else None)"

section \<open>Example inputs\<close>

text \<open>A fresh segment and a segment holding two fields; a reading of the clock; a builder
  with the default configuration, the same builder holding one segment and no header, and a
  builder with \<^verbatim>\<open>include_msh=False\<close> holding three segments.\<close>

definition empty_segment :: HL7Segment where
  "empty_segment = HL7Segment_init ''PID'' HL7EncodingCharacters_init"

definition two_field_segment :: HL7Segment where
  "two_field_segment = empty_segment\<lparr>seg_fields := [''a'', ''b'']\<rparr>"

definition now0 :: string where
  "now0 = ''20240101120000''"

definition fresh_builder :: HL7Builder where
  "fresh_builder = HL7Builder_init ''MSG1'' HL7Config_init"

definition headerless_builder :: HL7Builder where
  "headerless_builder = fresh_builder\<lparr>segments := [empty_segment]\<rparr>"

definition three_segment_builder :: HL7Builder where
  "three_segment_builder =
     (HL7Builder_init ''MSG1'' (HL7Config_init\<lparr>include_msh := False\<rparr>))
       \<lparr>segments :=
          [(HL7Segment_init ''AAA'' HL7EncodingCharacters_init)\<lparr>seg_fields := [''x'']\<rparr>,
           HL7Segment_init ''BBB'' HL7EncodingCharacters_init,
           (HL7Segment_init ''CCC'' HL7EncodingCharacters_init)
             \<lparr>seg_fields := [''y'', ''z'']\<rparr>]\<rparr>"

text \<open>A response of two segments whose acknowledgment code is \<open>c\<close>, and a response with
  two acknowledgment segments.\<close>

definition ack_message :: "string \<Rightarrow> string" where
  "ack_message c = ''MSH|x'' @ [CHR 0x0D] @ ''MSA|'' @ c @ ''|ok''"

definition two_ack_message :: string where
  "two_ack_message = ''MSA|AA'' @ [CHR 0x0D] @ ''MSA|XX''"

section \<open>Facts about the primitives\<close>

declare pad_fields.simps [simp del]

lemma pad_fields_eq: "pad_fields fs p = fs @ replicate (nat (p - int (length fs))) []"
proof (induction fs p rule: pad_fields.induct)
  case (1 fs position)
  show ?case
  proof (cases "int (length fs) < position")
    case True
    then have "nat (position - int (length fs)) =
        Suc (nat (position - int (length (fs @ [[]]))))"
      by simp
    with 1 True show ?thesis
      by (simp add: replicate_app_Cons_same pad_fields.simps[of fs position])
  next
    case False
    then show ?thesis by (simp add: pad_fields.simps[of fs position])
  qed
qed

lemma length_pad_fields: "int (length (pad_fields fs p)) = max (int (length fs)) p"
  by (simp add: pad_fields_eq)

lemma py_index_in_range: "0 \<le> i \<Longrightarrow> i < int (length xs) \<Longrightarrow> py_index xs i = Inr (nat i)"
  by (simp add: py_index_def)

lemma getitem_in_range: "0 \<le> i \<Longrightarrow> i < int (length xs) \<Longrightarrow> getitem xs i = Inr (xs ! nat i)"
  by (simp add: getitem_def py_index_in_range)

lemma setitem_in_range:
  "0 \<le> i \<Longrightarrow> i < int (length xs) \<Longrightarrow> setitem xs i v = Inr (xs[nat i := v])"
  by (simp add: setitem_def py_index_in_range)

lemma set_pad_fields: "set (pad_fields fs p) \<subseteq> set fs \<union> {[]}"
  by (auto simp add: pad_fields_eq)

lemma set_str_replace:
  "set (str_replace old new s) = (set s - {old}) \<union> (if old \<in> set s then set new else {})"
  by (induction s) (auto simp add: str_replace_def)

lemma str_split_no_sep: "c \<in> set (str_split sep s) \<Longrightarrow> sep \<notin> set c"
  by (induction s arbitrary: c) (auto split: list.splits if_splits)

lemma str_split_single: "sep \<notin> set c \<Longrightarrow> str_split sep c = [c]"
  by (induction c) auto

lemma str_split_append:
  "sep \<notin> set c \<Longrightarrow> str_split sep (c @ sep # rest) = c # str_split sep rest"
  by (induction c) auto

text \<open>Splitting undoes joining when no joined string holds the separator.\<close>

lemma str_split_join:
  "comps \<noteq> [] \<Longrightarrow> (\<And>c. c \<in> set comps \<Longrightarrow> sep \<notin> set c) \<Longrightarrow>
     str_split sep (str_join [sep] comps) = comps"
proof (induction "[sep]" comps rule: str_join.induct)
  case 1
  then show ?case by simp
next
  case (2 x)
  then show ?case by (simp add: str_split_single)
next
  case (3 x y ys)
  then show ?case by (simp add: str_split_append)
qed

lemma str_join_snoc: "xs \<noteq> [] \<Longrightarrow> str_join sep (xs @ [y]) = str_join sep xs @ sep @ y"
  by (induction sep xs rule: str_join.induct) simp_all

text \<open>The escape map of the encoding every builder uses, in the order of the loop.\<close>

lemma escape_map_init:
  "escape_map HL7EncodingCharacters_init =
     [(CHR ''|'', [CHR 0x5C, CHR ''F'', CHR 0x5C]),
      (CHR ''^'', [CHR 0x5C, CHR ''S'', CHR 0x5C]),
      (CHR ''~'', [CHR 0x5C, CHR ''R'', CHR 0x5C]),
      (CHR 0x5C, [CHR 0x5C, CHR ''E'', CHR 0x5C]),
      (CHR ''&'', [CHR 0x5C, CHR ''T'', CHR 0x5C])]"
  by (simp add: escape_map_def HL7EncodingCharacters_init_def Let_def)

lemma escape_hl7_no_component_separator:
  "CHR ''^'' \<notin> set (escape_hl7 HL7EncodingCharacters_init v)"
  by (simp add: escape_hl7_def escape_map_init set_str_replace)

text \<open>\<^verbatim>\<open>str()\<close> raises for an integer at the limit and for no value but a long integer.\<close>

lemma ten_le_limit: "(10::int) \<le> 10 ^ int_max_str_digits"
proof -
  have "1 \<le> int_max_str_digits" by (simp add: int_max_str_digits_def)
  then have "(10::int) ^ 1 \<le> 10 ^ int_max_str_digits"
    by (intro power_increasing) simp_all
  then show ?thesis by simp
qed

lemma py_str_zero: "py_str (PyInt 0) = Inr ''0''"
  using ten_le_limit by simp

declare py_str.simps(3) [simp del]

lemma py_str_at_limit:
  "py_str (PyInt (10 ^ int_max_str_digits)) = Inl digits_limit_error"
  by (simp add: py_str.simps(3))

lemma py_str_raises_iff:
  "isl (py_str val) = (\<exists>i. val = PyInt i \<and> 10 ^ int_max_str_digits \<le> \<bar>i\<bar>)"
  by (cases val) (simp_all add: py_str.simps(3))

lemma py_str_not_position_error:
  "py_str val \<noteq> Inl (ValueError ''Position must be >= 1'')"
  "py_str val \<noteq> Inl (ValueError ''Positions must be >= 1'')"
  by (cases val; simp add: digits_limit_error_def py_str.simps(3))+

section \<open>What the segment methods do\<close>

text \<open>\<^verbatim>\<open>add_field\<close> pads the list to \<open>position\<close> entries and then appends: counted from 1,
  the value lands at \<open>max (length fields) position + 1\<close>. When \<^verbatim>\<open>str(value)\<close> raises, the
  padded list stays.\<close>

lemma add_field_eq:
  "add_field val position s =
     (let fs = seg_fields s @ replicate (nat (position - int (length (seg_fields s)))) []
      in if val = PyNone then (Inr (), s\<lparr>seg_fields := fs @ [[]]\<rparr>)
         else (case py_str val of
                 Inl e \<Rightarrow> (Inl e, s\<lparr>seg_fields := fs\<rparr>)
               | Inr str_value \<Rightarrow>
                   (Inr (), s\<lparr>seg_fields := fs @ [escape_hl7 (encoding s) str_value]\<rparr>)))"
  by (simp add: add_field_def pad_fields_eq Let_def split: sum.splits)

lemma add_field_str:
  "add_field (PyStr x) position s =
     (Inr (), s\<lparr>seg_fields :=
        seg_fields s @ replicate (nat (position - int (length (seg_fields s)))) []
          @ [escape_hl7 (encoding s) x]\<rparr>)"
  by (simp add: add_field_eq)

lemma add_field_frame:
  "segment_id (snd (add_field val position s)) = segment_id s"
  "encoding (snd (add_field val position s)) = encoding s"
  by (simp_all add: add_field_eq Let_def split: sum.splits)

lemma add_field_keeps:
  "length (seg_fields s) \<le> length (seg_fields (snd (add_field val position s)))"
  "i < length (seg_fields s) \<Longrightarrow>
     seg_fields (snd (add_field val position s)) ! i = seg_fields s ! i"
  by (simp_all add: add_field_eq Let_def nth_append split: sum.splits)

lemma set_field_invalid:
  "position < 1 \<Longrightarrow>
     set_field val position s = (Inl (ValueError ''Position must be >= 1''), s)"
  by (simp add: set_field_def)

lemma set_field_grow:
  "1 \<le> position \<Longrightarrow> int (length (seg_fields s)) < position \<Longrightarrow>
     set_field val position s = add_field val position s"
  by (simp add: set_field_def)

lemma set_field_overwrite:
  "1 \<le> position \<Longrightarrow> position \<le> int (length (seg_fields s)) \<Longrightarrow>
     set_field val position s =
       (if val = PyNone
        then (Inr (), s\<lparr>seg_fields := (seg_fields s)[nat (position - 1) := []]\<rparr>)
        else (case py_str val of
                Inl e \<Rightarrow> (Inl e, s)
              | Inr str_value \<Rightarrow>
                  (Inr (), s\<lparr>seg_fields := (seg_fields s)[nat (position - 1) :=
                              escape_hl7 (encoding s) str_value]\<rparr>)))"
  by (simp add: set_field_def setitem_in_range split: sum.splits)

lemma add_component_invalid:
  "field_pos < 1 \<or> comp_pos < 1 \<Longrightarrow>
     add_component val field_pos comp_pos s =
       (Inl (ValueError ''Positions must be >= 1''), s)"
  by (simp add: add_component_def)

text \<open>With both positions at least 1 no index of \<^verbatim>\<open>add_component\<close> is out of range: the
  method raises only when \<^verbatim>\<open>str(value)\<close> does, and is otherwise the following update.
  \<open>s1\<close> is the segment after the field was made to exist.\<close>

lemma add_component_valid:
  assumes "1 \<le> field_pos" and "1 \<le> comp_pos"
  shows "add_component val field_pos comp_pos s =
     (let s1 = (if int (length (seg_fields s)) < field_pos
                then snd (add_field (PyStr []) field_pos s) else s);
          field = seg_fields s1 ! nat (field_pos - 1);
          components =
            (if field \<noteq> [] then str_split (component_separator (encoding s1)) field
             else [])
      in (case (if truthy val then map_sum id (escape_hl7 (encoding s1)) (py_str val)
                else Inr []) of
            Inl e \<Rightarrow> (Inl e, s1)
          | Inr new \<Rightarrow>
              (Inr (), s1\<lparr>seg_fields := (seg_fields s1)[nat (field_pos - 1) :=
                 str_join [component_separator (encoding s1)]
                   ((pad_fields components comp_pos)[nat (comp_pos - 1) := new])]\<rparr>)))"
proof -
  define s1 where "s1 = (if int (length (seg_fields s)) < field_pos
                then snd (add_field (PyStr []) field_pos s) else s)"
  have first: "(if int (length (seg_fields s)) < field_pos
               then add_field (PyStr []) field_pos s else (Inr (), s)) = (Inr (), s1)"
    by (simp add: s1_def add_field_str)
  have len: "field_pos - 1 < int (length (seg_fields s1))"
    unfolding s1_def by (auto simp add: add_field_str)
  have get: "getitem (seg_fields s1) (field_pos - 1) = Inr (seg_fields s1 ! nat (field_pos - 1))"
    using assms len by (simp add: getitem_in_range)
  have set1: "\<And>cs v. setitem (pad_fields cs comp_pos) (comp_pos - 1) v
        = Inr ((pad_fields cs comp_pos)[nat (comp_pos - 1) := v])"
    using assms by (intro setitem_in_range) (simp_all add: length_pad_fields)
  have set2: "\<And>v. setitem (seg_fields s1) (field_pos - 1) v
        = Inr ((seg_fields s1)[nat (field_pos - 1) := v])"
    using assms len by (simp add: setitem_in_range)
  show ?thesis
    using assms unfolding add_component_def first s1_def[symmetric] Let_def
    by (simp add: get set1 set2 split: sum.splits)
qed

lemma add_component_keeps:
  "length (seg_fields s)
     \<le> length (seg_fields (snd (add_component val field_pos comp_pos s)))"
  "i < length (seg_fields s) \<Longrightarrow> int i \<noteq> field_pos - 1 \<Longrightarrow>
     seg_fields (snd (add_component val field_pos comp_pos s)) ! i = seg_fields s ! i"
proof -
  have "length (seg_fields s)
       \<le> length (seg_fields (snd (add_component val field_pos comp_pos s))) \<and>
     (i < length (seg_fields s) \<longrightarrow> int i \<noteq> field_pos - 1 \<longrightarrow>
     seg_fields (snd (add_component val field_pos comp_pos s)) ! i = seg_fields s ! i)"
  proof (cases "field_pos < 1 \<or> comp_pos < 1")
    case True
    then show ?thesis by (simp add: add_component_invalid)
  next
    case False
    then have ok: "1 \<le> field_pos" "1 \<le> comp_pos" by simp_all
    then have ne: "int i \<noteq> field_pos - 1 \<Longrightarrow> nat (field_pos - 1) \<noteq> i" by auto
    show ?thesis
      using ne
      by (simp add: add_component_valid[OF ok] Let_def add_field_keeps split: sum.splits)
  qed
  then show "length (seg_fields s)
       \<le> length (seg_fields (snd (add_component val field_pos comp_pos s)))"
    and "i < length (seg_fields s) \<Longrightarrow> int i \<noteq> field_pos - 1 \<Longrightarrow>
     seg_fields (snd (add_component val field_pos comp_pos s)) ! i = seg_fields s ! i"
    by simp_all
qed

lemma set_field_keeps:
  "length (seg_fields s) \<le> length (seg_fields (snd (set_field val position s)))"
  "i < length (seg_fields s) \<Longrightarrow> int i \<noteq> position - 1 \<Longrightarrow>
     seg_fields (snd (set_field val position s)) ! i = seg_fields s ! i"
proof -
  consider "position < 1" | "1 \<le> position" "int (length (seg_fields s)) < position"
    | "1 \<le> position" "position \<le> int (length (seg_fields s))"
    by linarith
  then have "length (seg_fields s) \<le> length (seg_fields (snd (set_field val position s))) \<and>
     (i < length (seg_fields s) \<longrightarrow> int i \<noteq> position - 1 \<longrightarrow>
     seg_fields (snd (set_field val position s)) ! i = seg_fields s ! i)"
  proof cases
    case 1
    then show ?thesis by (simp add: set_field_invalid)
  next
    case 2
    then show ?thesis by (simp add: set_field_grow add_field_keeps)
  next
    case 3
    then show ?thesis by (auto simp add: set_field_overwrite split: sum.splits)
  qed
  then show "length (seg_fields s) \<le> length (seg_fields (snd (set_field val position s)))"
    and "i < length (seg_fields s) \<Longrightarrow> int i \<noteq> position - 1 \<Longrightarrow>
     seg_fields (snd (set_field val position s)) ! i = seg_fields s ! i"
    by simp_all
qed

section \<open>Invalid positions\<close>

text \<open>
  Claim C6, as amended. \<^verbatim>\<open>set_field\<close> raises the invalid-position error exactly when
  \<open>position < 1\<close>, and \<^verbatim>\<open>add_component\<close> exactly when \<open>field_pos < 1\<close> or \<open>comp_pos < 1\<close>; this
  error comes from the first statement of the method, so the segment is the one the method
  was called on. For positions from 1 on no index is out of range, and the methods return
  normally unless \<^verbatim>\<open>str(value)\<close> raises for a value they convert (\<^verbatim>\<open>set_field\<close> converts every
  value but \<^verbatim>\<open>None\<close>, \<^verbatim>\<open>add_component\<close> every truthy value); then the error is the one of
  \<^verbatim>\<open>str\<close>. \<^verbatim>\<open>str\<close> raises only for an integer of more than 4300 digits.
\<close>

theorem invalid_position_iff:
  "(fst (set_field val position s) = Inl (ValueError ''Position must be >= 1''))
     = (position < 1) \<and>
   (position < 1 \<longrightarrow>
      set_field val position s = (Inl (ValueError ''Position must be >= 1''), s)) \<and>
   (1 \<le> position \<and> (val = PyNone \<or> \<not> isl (py_str val)) \<longrightarrow>
      fst (set_field val position s) = Inr ()) \<and>
   (1 \<le> position \<and> val \<noteq> PyNone \<and> py_str val = Inl e \<longrightarrow>
      fst (set_field val position s) = Inl e) \<and>
   (fst (add_component val field_pos comp_pos s) = Inl (ValueError ''Positions must be >= 1''))
     = (field_pos < 1 \<or> comp_pos < 1) \<and>
   (field_pos < 1 \<or> comp_pos < 1 \<longrightarrow>
      add_component val field_pos comp_pos s =
        (Inl (ValueError ''Positions must be >= 1''), s)) \<and>
   (1 \<le> field_pos \<and> 1 \<le> comp_pos \<and> (\<not> truthy val \<or> \<not> isl (py_str val)) \<longrightarrow>
      fst (add_component val field_pos comp_pos s) = Inr ()) \<and>
   (1 \<le> field_pos \<and> 1 \<le> comp_pos \<and> truthy val \<and> py_str val = Inl e \<longrightarrow>
      fst (add_component val field_pos comp_pos s) = Inl e) \<and>
   isl (py_str val) = (\<exists>i. val = PyInt i \<and> 10 ^ int_max_str_digits \<le> \<bar>i\<bar>)"
proof -
  have sf: "fst (set_field val position s) =
      (if val = PyNone then Inr () else map_sum id (\<lambda>x. ()) (py_str val))"
    if "1 \<le> position"
  proof (cases "int (length (seg_fields s)) < position")
    case True
    with that show ?thesis
      by (simp add: set_field_grow add_field_eq Let_def split: sum.splits)
  next
    case False
    with that show ?thesis
      by (simp add: set_field_overwrite split: sum.splits)
  qed
  have ac: "fst (add_component val field_pos comp_pos s) =
      (if truthy val then map_sum id (\<lambda>x. ()) (py_str val) else Inr ())"
    if "1 \<le> field_pos" "1 \<le> comp_pos"
  proof (cases "truthy val")
    case False
    then show ?thesis by (simp add: add_component_valid[OF that] Let_def)
  next
    case True
    then show ?thesis
      by (cases "py_str val") (simp_all add: add_component_valid[OF that] Let_def)
  qed
  have sf_iff: "(fst (set_field val position s) = Inl (ValueError ''Position must be >= 1''))
     = (position < 1)"
  proof (cases "position < 1")
    case True
    then show ?thesis by (simp add: set_field_invalid)
  next
    case False
    then have "1 \<le> position" by simp
    from sf[OF this] False show ?thesis
      using py_str_not_position_error(1)[of val]
      by (cases "py_str val") auto
  qed
  have ac_iff: "(fst (add_component val field_pos comp_pos s)
      = Inl (ValueError ''Positions must be >= 1'')) = (field_pos < 1 \<or> comp_pos < 1)"
  proof (cases "field_pos < 1 \<or> comp_pos < 1")
    case True
    then show ?thesis by (simp add: add_component_invalid)
  next
    case False
    then have "1 \<le> field_pos" "1 \<le> comp_pos" by simp_all
    from ac[OF this] False show ?thesis
      using py_str_not_position_error(2)[of val]
      by (cases "py_str val") auto
  qed
  have sf_ok: "fst (set_field val position s) = Inr ()"
    if "1 \<le> position \<and> (val = PyNone \<or> \<not> isl (py_str val))"
    using that sf by (cases "py_str val") auto
  have sf_err: "fst (set_field val position s) = Inl e"
    if "1 \<le> position \<and> val \<noteq> PyNone \<and> py_str val = Inl e"
    using that sf by auto
  have ac_ok: "fst (add_component val field_pos comp_pos s) = Inr ()"
    if "1 \<le> field_pos \<and> 1 \<le> comp_pos \<and> (\<not> truthy val \<or> \<not> isl (py_str val))"
    using that ac by (cases "py_str val") auto
  have ac_err: "fst (add_component val field_pos comp_pos s) = Inl e"
    if "1 \<le> field_pos \<and> 1 \<le> comp_pos \<and> truthy val \<and> py_str val = Inl e"
    using that ac by auto
  show ?thesis
    using sf_iff ac_iff sf_ok sf_err ac_ok ac_err set_field_invalid add_component_invalid
      py_str_raises_iff[of val]
    by blast
qed

theorem invalid_position_iff_witness:
  "set_field (PyStr ''X'') 0 two_field_segment =
     (Inl (ValueError ''Position must be >= 1''), two_field_segment) \<and>
   fst (set_field (PyStr ''X'') 3 two_field_segment) = Inr () \<and>
   fst (set_field (PyInt (10 ^ int_max_str_digits)) 3 two_field_segment) =
     Inl digits_limit_error \<and>
   add_component (PyStr ''X'') 1 0 two_field_segment =
     (Inl (ValueError ''Positions must be >= 1''), two_field_segment) \<and>
   fst (add_component (PyStr ''X'') 1 2 two_field_segment) = Inr () \<and>
   fst (add_component (PyInt (10 ^ int_max_str_digits)) 1 2 two_field_segment) =
     Inl digits_limit_error"
proof -
  have t: "truthy (PyInt (10 ^ int_max_str_digits))"
    by simp
  show ?thesis
    using invalid_position_iff [of "PyStr ''X''" 0 two_field_segment _ 1 0]
      invalid_position_iff [of "PyStr ''X''" 3 two_field_segment _ 1 2]
      invalid_position_iff [of "PyInt (10 ^ int_max_str_digits)" 3 two_field_segment
        digits_limit_error 1 2]
      t py_str_at_limit
    by simp
qed

text \<open>
  Claim C6 as stated fails: \<^verbatim>\<open>set_field(10 ** 4300, 3)\<close> on a fresh segment raises the
  \<^verbatim>\<open>ValueError\<close> of \<^verbatim>\<open>str\<close> although the position is valid, and the fields are no longer the
  empty list: \<^verbatim>\<open>add_field\<close> has padded them to three empty strings.
\<close>

theorem set_field_valid_position_raises:
  "set_field (PyInt (10 ^ int_max_str_digits)) 3 empty_segment =
     (Inl digits_limit_error, empty_segment\<lparr>seg_fields := [[], [], []]\<rparr>) \<and>
   seg_fields empty_segment = [] \<and>
   int_max_str_digits = 4300 \<and>
   digits_limit_error \<noteq> ValueError ''Position must be >= 1''"
proof -
  have e: "seg_fields empty_segment = []"
    by (simp add: empty_segment_def HL7Segment_init_def)
  have r: "replicate 3 ([]::string) = [[], [], []]"
    by (simp add: numeral_3_eq_3)
  have "set_field (PyInt (10 ^ int_max_str_digits)) 3 empty_segment =
      add_field (PyInt (10 ^ int_max_str_digits)) 3 empty_segment"
    by (rule set_field_grow) (simp_all add: e)
  also have "\<dots> = (Inl digits_limit_error, empty_segment\<lparr>seg_fields := [[], [], []]\<rparr>)"
    unfolding add_field_eq Let_def py_str_at_limit e by (simp add: r)
  finally have raised: "set_field (PyInt (10 ^ int_max_str_digits)) 3 empty_segment =
      (Inl digits_limit_error, empty_segment\<lparr>seg_fields := [[], [], []]\<rparr>)" .
  have limit: "int_max_str_digits = 4300"
    by (simp add: int_max_str_digits_def)
  have other: "digits_limit_error \<noteq> ValueError ''Position must be >= 1''"
    by (simp add: digits_limit_error_def)
  from raised e limit other show ?thesis
    by (intro conjI)
qed

section \<open>Other fields are kept\<close>

text \<open>
  Claim C9. Each of \<^verbatim>\<open>add_field\<close>, \<^verbatim>\<open>set_field\<close> and \<^verbatim>\<open>add_component\<close> leaves the list of
  fields at least as long as it was, and every field that was stored before the call reads
  as before, except the one at the position the call addresses (index \<open>position - 1\<close>);
  \<^verbatim>\<open>add_field\<close> changes no stored field at all. Here \<open>snd\<close> is the segment after the call,
  also when the call raises.
\<close>

theorem segment_ops_keep_other_fields:
  "length (seg_fields s) \<le> length (seg_fields (snd (add_field val position s))) \<and>
   (\<forall>i < length (seg_fields s).
      seg_fields (snd (add_field val position s)) ! i = seg_fields s ! i) \<and>
   length (seg_fields s) \<le> length (seg_fields (snd (set_field val position s))) \<and>
   (\<forall>i < length (seg_fields s). int i \<noteq> position - 1 \<longrightarrow>
      seg_fields (snd (set_field val position s)) ! i = seg_fields s ! i) \<and>
   length (seg_fields s)
     \<le> length (seg_fields (snd (add_component val position comp_pos s))) \<and>
   (\<forall>i < length (seg_fields s). int i \<noteq> position - 1 \<longrightarrow>
      seg_fields (snd (add_component val position comp_pos s)) ! i = seg_fields s ! i)"
  by (simp add: add_field_keeps set_field_keeps add_component_keeps)

theorem segment_ops_keep_other_fields_witness:
  "seg_fields (snd (add_field (PyStr ''X'') 1 two_field_segment)) ! 1 = ''b'' \<and>
   seg_fields (snd (set_field (PyStr ''X'') 1 two_field_segment)) ! 1 = ''b'' \<and>
   seg_fields (snd (add_component (PyStr ''X'') 1 2 two_field_segment)) ! 1 = ''b'' \<and>
   2 \<le> length (seg_fields (snd (set_field (PyStr ''X'') 1 two_field_segment)))"
proof -
  have f: "seg_fields two_field_segment = [''a'', ''b'']"
    by (simp add: two_field_segment_def)
  then have i: "(1::nat) < length (seg_fields two_field_segment)" "int 1 \<noteq> 1 - 1"
    by simp_all
  show ?thesis
    using segment_ops_keep_other_fields [of two_field_segment "PyStr ''X''" 1 2] i f
    by auto
qed

section \<open>Where \<^verbatim>\<open>set_field\<close> writes\<close>

text \<open>On a list of at least \<open>position\<close> fields \<^verbatim>\<open>set_field\<close> of a string overwrites index
  \<open>position - 1\<close>, the length stays, and a second call changes nothing.\<close>

lemma set_field_overwrite_reads_back:
  assumes "1 \<le> position" and "position \<le> int (length (seg_fields s))"
  shows "seg_fields (snd (set_field (PyStr x) position s)) ! nat (position - 1) =
           escape_hl7 (encoding s) x \<and>
         length (seg_fields (snd (set_field (PyStr x) position s))) = length (seg_fields s) \<and>
         set_field (PyStr x) position (snd (set_field (PyStr x) position s))
           = set_field (PyStr x) position s"
  using assms by (simp add: set_field_overwrite)

text \<open>On a shorter list \<^verbatim>\<open>set_field\<close> calls \<^verbatim>\<open>add_field\<close>, whose loop pads the list to
  \<open>position\<close> entries, the target position included, before the value is appended: index
  \<open>position - 1\<close> holds the empty string and the value stands one place later.\<close>

lemma set_field_grow_fields:
  assumes "1 \<le> position" and "int (length (seg_fields s)) < position"
  shows "seg_fields (snd (set_field (PyStr x) position s)) ! nat (position - 1) = [] \<and>
         seg_fields (snd (set_field (PyStr x) position s)) ! nat position =
           escape_hl7 (encoding s) x \<and>
         int (length (seg_fields (snd (set_field (PyStr x) position s)))) = position + 1"
proof -
  define n where "n = length (seg_fields s)"
  define k where "k = nat (position - int n)"
  define v where "v = escape_hl7 (encoding s) x"
  have k: "0 < k" and p1: "nat (position - 1) = n + (k - 1)" and p: "nat position = n + k"
    using assms by (simp_all add: k_def n_def)
  have fs: "seg_fields (snd (set_field (PyStr x) position s))
      = seg_fields s @ replicate k [] @ [v]"
    using assms by (simp add: set_field_grow add_field_str k_def n_def v_def)
  have "(seg_fields s @ replicate k [] @ [v]) ! (n + (k - 1)) = (replicate k [] @ [v]) ! (k - 1)"
    unfolding n_def by (rule nth_append_length_plus)
  also have "\<dots> = []"
    using k by (simp add: nth_append)
  finally have pad: "(seg_fields s @ replicate k [] @ [v]) ! (n + (k - 1)) = []" .
  have "(seg_fields s @ replicate k [] @ [v]) ! (n + k) = (replicate k [] @ [v]) ! k"
    unfolding n_def by (rule nth_append_length_plus)
  then have val: "(seg_fields s @ replicate k [] @ [v]) ! (n + k) = v"
    by (simp add: nth_append)
  have len: "int (length (seg_fields s @ replicate k [] @ [v])) = position + 1"
    using assms by (simp add: k_def n_def)
  show ?thesis
    using pad val len unfolding fs p1 p v_def by simp
qed

text \<open>
  Claim C1 (the code departs from it). On a fresh segment \<^verbatim>\<open>set_field("X", 1)\<close> leaves the
  fields \<^verbatim>\<open>["", "X"]\<close>: position 1 reads the empty string and the value, which escaping leaves
  as \<^verbatim>\<open>"X"\<close>, stands at position 2. The padding loop of \<^verbatim>\<open>add_field\<close> runs while
  \<^verbatim>\<open>len(self.fields) < position\<close>, so it fills the target position too.
\<close>

theorem set_field_fresh_segment_lands_one_late:
  "set_field (PyStr ''X'') 1 empty_segment =
     (Inr (), empty_segment\<lparr>seg_fields := [[], ''X'']\<rparr>) \<and>
   seg_fields (snd (set_field (PyStr ''X'') 1 empty_segment)) ! 0 = [] \<and>
   py_str (PyStr ''X'') = Inr ''X'' \<and>
   escape_hl7 (encoding empty_segment) ''X'' = ''X''"
  by code_simp

text \<open>
  Claim C3 (the code departs from it). On a fresh segment one call of \<^verbatim>\<open>set_field("X", 1)\<close>
  leaves \<^verbatim>\<open>["", "X"]\<close> and a second call leaves \<^verbatim>\<open>["X", "X"]\<close>: the first call appends past
  the target position, the second finds the list long enough and overwrites position 1.
\<close>

theorem set_field_twice_differs_from_once:
  "seg_fields (snd (set_field (PyStr ''X'') 1 empty_segment)) = [[], ''X''] \<and>
   seg_fields (snd (set_field (PyStr ''X'') 1
       (snd (set_field (PyStr ''X'') 1 empty_segment)))) = [''X'', ''X'']"
  by code_simp

section \<open>Components\<close>

text \<open>With the builder's encoding, both positions at least 1 and a value whose string is
  \<open>x\<close>, \<^verbatim>\<open>add_component\<close> returns normally, changes only the list of fields, and the field
  at \<open>field_pos\<close> splits into at least \<open>comp_pos\<close> components, of which the one at \<open>comp_pos\<close>
  is the escaped \<open>x\<close> when the value is truthy and the empty string when it is not.\<close>

lemma add_component_reads_back:
  assumes enc: "encoding s = HL7EncodingCharacters_init"
    and f: "1 \<le> field_pos" and c: "1 \<le> comp_pos"
    and str: "py_str val = Inr x"
  shows "\<exists>fs comps.
     add_component val field_pos comp_pos s = (Inr (), s\<lparr>seg_fields := fs\<rparr>) \<and>
     nat (field_pos - 1) < length fs \<and>
     str_split (CHR ''^'') (fs ! nat (field_pos - 1)) = comps \<and>
     comp_pos \<le> int (length comps) \<and>
     comps ! nat (comp_pos - 1) =
       (if truthy val then escape_hl7 HL7EncodingCharacters_init x else [])"
proof -
  define s1 where "s1 = (if int (length (seg_fields s)) < field_pos
                then snd (add_field (PyStr []) field_pos s) else s)"
  define field where "field = seg_fields s1 ! nat (field_pos - 1)"
  define components where
    "components = (if field \<noteq> [] then str_split (CHR ''^'') field else [])"
  define new where
    "new = (if truthy val then escape_hl7 HL7EncodingCharacters_init x else [])"
  define comps where "comps = (pad_fields components comp_pos)[nat (comp_pos - 1) := new]"
  have enc1: "encoding s1 = HL7EncodingCharacters_init"
    by (simp add: s1_def enc add_field_frame)
  have sep: "component_separator HL7EncodingCharacters_init = CHR ''^''"
    by (simp add: HL7EncodingCharacters_init_def)
  have len1: "field_pos - 1 < int (length (seg_fields s1))"
    unfolding s1_def by (auto simp add: add_field_str)
  have upd: "s1\<lparr>seg_fields := fs\<rparr> = s\<lparr>seg_fields := fs\<rparr>" for fs
    by (simp add: s1_def add_field_str)
  have out: "(if truthy val then map_sum id (escape_hl7 HL7EncodingCharacters_init) (py_str val)
              else Inr []) = Inr new"
    by (simp add: new_def str)
  have run: "add_component val field_pos comp_pos s =
      (Inr (), s\<lparr>seg_fields :=
         (seg_fields s1)[nat (field_pos - 1) := str_join [CHR ''^''] comps]\<rparr>)"
    using add_component_valid[OF f c, of val s]
    unfolding Let_def s1_def[symmetric] enc1 sep field_def[symmetric]
      components_def[symmetric] out comps_def
    by (simp add: upd)
  have lenc: "int (length comps) = max (int (length components)) comp_pos"
    by (simp add: comps_def length_pad_fields)
  then have ne: "comps \<noteq> []" using c by auto
  have new_clean: "CHR ''^'' \<notin> set new"
    by (simp add: new_def escape_hl7_no_component_separator)
  have old_clean: "CHR ''^'' \<notin> set y" if "y \<in> set components" for y
    using that by (auto simp add: components_def str_split_no_sep split: if_splits)
  have clean: "CHR ''^'' \<notin> set y" if "y \<in> set comps" for y
  proof -
    from that have "y \<in> insert new (set (pad_fields components comp_pos))"
      unfolding comps_def using set_update_subset_insert by fastforce
    then show ?thesis
      using new_clean old_clean set_pad_fields[of components comp_pos] by auto
  qed
  have rt: "str_split (CHR ''^'') (str_join [CHR ''^''] comps) = comps"
    using ne clean by (rule str_split_join)
  have at: "comps ! nat (comp_pos - 1) = new"
    using c lenc by (simp add: comps_def pad_fields_eq)
  show ?thesis
    using run len1 f c rt lenc at
    by (intro exI[of _ "(seg_fields s1)[nat (field_pos - 1) := str_join [CHR ''^''] comps]"]
          exI[of _ comps]) (auto simp add: new_def)
qed

text \<open>
  Claim C4 (the code departs from it). \<^verbatim>\<open>add_component(0, 1, 1)\<close> on a fresh segment leaves
  the fields \<^verbatim>\<open>["", ""]\<close>: the component written for the integer \<open>0\<close> is the empty string,
  where the escaped string of \<open>0\<close> is \<^verbatim>\<open>"0"\<close>. The method tests the truth value of the value
  (\<^verbatim>\<open>if value\<close>); \<^verbatim>\<open>set_field\<close> tests \<^verbatim>\<open>value is None\<close> and stores \<^verbatim>\<open>"0"\<close>.
\<close>

theorem add_component_zero_written_empty:
  "add_component (PyInt 0) 1 1 empty_segment =
     (Inr (), empty_segment\<lparr>seg_fields := [[], []]\<rparr>) \<and>
   str_split (CHR ''^'') (seg_fields (snd (add_component (PyInt 0) 1 1 empty_segment)) ! 0)
     = [[]] \<and>
   py_str (PyInt 0) = Inr ''0'' \<and>
   escape_hl7 (encoding empty_segment) ''0'' = ''0'' \<and>
   seg_fields (snd (set_field (PyInt 0) 1 two_field_segment)) = [''0'', ''b'']"
proof -
  have a: "add_component (PyInt 0) 1 1 empty_segment =
     (Inr (), empty_segment\<lparr>seg_fields := [[], []]\<rparr>)"
    by code_simp
  have e: "escape_hl7 HL7EncodingCharacters_init ''0'' = ''0''"
    by code_simp
  have t: "seg_fields two_field_segment = [''a'', ''b'']"
      "encoding two_field_segment = HL7EncodingCharacters_init"
      "encoding empty_segment = HL7EncodingCharacters_init"
    by (simp_all add: two_field_segment_def empty_segment_def HL7Segment_init_def)
  have "set_field (PyInt 0) 1 two_field_segment =
      (Inr (), two_field_segment\<lparr>seg_fields :=
         (seg_fields two_field_segment)[nat (1 - 1) :=
            escape_hl7 (encoding two_field_segment) ''0'']\<rparr>)"
    by (subst set_field_overwrite) (simp_all add: t py_str_zero)
  then have s: "seg_fields (snd (set_field (PyInt 0) 1 two_field_segment)) = [''0'', ''b'']"
    by (simp add: t e)
  have d: "seg_fields (snd (Inr (), empty_segment\<lparr>seg_fields := [[], []]\<rparr>)) ! 0 = []"
    by simp
  show ?thesis
    unfolding a d py_str_zero t e s by simp
qed

section \<open>Escaping\<close>

text \<open>
  Claim C2 (the code departs from it). Write \<open>ESC\<close> for the escape character, the
  backslash. The loop replaces the field, component and repetition separators first and
  the escape character fourth, on the text the earlier passes produced, so the escape
  characters of a token already inserted are escaped again: the one-character string \<^verbatim>\<open>|\<close>
  becomes the seven characters \<open>ESC\<close> \<^verbatim>\<open>E\<close> \<open>ESC\<close> \<^verbatim>\<open>F\<close> \<open>ESC\<close> \<^verbatim>\<open>E\<close> \<open>ESC\<close> and not the token
  \<open>ESC\<close> \<^verbatim>\<open>F\<close> \<open>ESC\<close>. The three-character string \<open>ESC\<close> \<^verbatim>\<open>F\<close> \<open>ESC\<close> is escaped to the same
  seven characters, so no decoder returns both inputs. Both inputs hold a delimiter.
\<close>

theorem escape_hl7_reescapes_tokens:
  "escape_hl7 HL7EncodingCharacters_init ''|'' =
     [CHR 0x5C, CHR ''E'', CHR 0x5C, CHR ''F'', CHR 0x5C, CHR ''E'', CHR 0x5C] \<and>
   escape_hl7 HL7EncodingCharacters_init [CHR 0x5C, CHR ''F'', CHR 0x5C] =
     escape_hl7 HL7EncodingCharacters_init ''|'' \<and>
   [CHR 0x5C, CHR ''F'', CHR 0x5C] \<noteq> ''|''"
  by code_simp

section \<open>Building the message\<close>

text \<open>\<^verbatim>\<open>add_field\<close> of a string does not raise, so neither does \<^verbatim>\<open>add_msh_segment\<close>.\<close>

lemma add_fields_strings:
  "(\<And>v p. (v, p) \<in> set xs \<Longrightarrow> \<exists>x. v = PyStr x) \<Longrightarrow>
     fst (add_fields xs s) = Inr () \<and>
     segment_id (snd (add_fields xs s)) = segment_id s \<and>
     encoding (snd (add_fields xs s)) = encoding s"
proof (induction xs arbitrary: s)
  case Nil
  then show ?case by simp
next
  case (Cons a xs)
  obtain v p where a: "a = (v, p)" by (cases a)
  then obtain x where v: "v = PyStr x" using Cons.prems[of v p] by auto
  have "\<And>v p. (v, p) \<in> set xs \<Longrightarrow> \<exists>x. v = PyStr x"
    using Cons.prems by auto
  from Cons.IH[OF this] show ?case
    by (simp add: a v add_field_str)
qed

lemma msh_segment_returns:
  "fst (msh_segment now b) = Inr ()"
  "segment_id (snd (msh_segment now b)) = ''MSH''"
proof -
  have "\<And>v p. (v, p) \<in> set (msh_fields now b) \<Longrightarrow> \<exists>x. v = PyStr x"
    by (auto simp add: msh_fields_def)
  from add_fields_strings[OF this, where s = "HL7Segment_init ''MSH'' (b_encoding b)"]
  show "fst (msh_segment now b) = Inr ()"
    and "segment_id (snd (msh_segment now b)) = ''MSH''"
    by (simp_all add: msh_segment_def HL7Segment_init_def)
qed

lemma add_msh_segment_eq:
  "add_msh_segment now b = (Inr (), b\<lparr>segments := segments b @ [snd (msh_segment now b)]\<rparr>)"
  using msh_segment_returns(1)[of now b]
  by (cases "msh_segment now b") (simp add: add_msh_segment_def)

lemma build_message_without_header_flag:
  "\<not> include_msh (config b) \<Longrightarrow>
     build_message now b = (Inr (str_join [SEGMENT_DELIMITER] (map build (segments b))), b)"
  by (simp add: build_message_def)

lemma build_message_header_present:
  "list_ex (\<lambda>s. segment_id s = ''MSH'') (segments b) \<Longrightarrow>
     build_message now b = (Inr (str_join [SEGMENT_DELIMITER] (map build (segments b))), b)"
  by (simp add: build_message_def)

text \<open>When the flag is on and no segment is tagged \<^verbatim>\<open>MSH\<close>, the header is synthesized and
  appended after the segments already there.\<close>

lemma build_message_header_absent:
  "include_msh (config b) \<Longrightarrow> \<not> list_ex (\<lambda>s. segment_id s = ''MSH'') (segments b) \<Longrightarrow>
     build_message now b =
       (Inr (str_join [SEGMENT_DELIMITER]
               (map build (segments b @ [snd (msh_segment now b)]))),
        b\<lparr>segments := segments b @ [snd (msh_segment now b)]\<rparr>)"
  by (simp add: build_message_def add_msh_segment_eq)

text \<open>
  Claim C7. A builder whose configuration has \<^verbatim>\<open>include_msh\<close> off and whose segments are
  three segments tagged \<^verbatim>\<open>AAA\<close>, \<^verbatim>\<open>BBB\<close>, \<^verbatim>\<open>CCC\<close>, in this order, is serialized to the three
  segments' texts in that order, each the tag, the field separator and the fields joined
  by the field separator, with one carriage return between two neighbours and none at the
  end; the call returns normally and the builder is left as it was.
\<close>

theorem build_message_three_segments:
  assumes "\<not> include_msh (config b)"
    and "segments b = [a1, a2, a3]"
    and "segment_id a1 = ''AAA''" and "segment_id a2 = ''BBB''" and "segment_id a3 = ''CCC''"
  shows "build_message now b =
     (Inr (''AAA'' @ [field_separator (encoding a1)]
             @ str_join [field_separator (encoding a1)] (seg_fields a1)
           @ [CHR 0x0D]
           @ ''BBB'' @ [field_separator (encoding a2)]
             @ str_join [field_separator (encoding a2)] (seg_fields a2)
           @ [CHR 0x0D]
           @ ''CCC'' @ [field_separator (encoding a3)]
             @ str_join [field_separator (encoding a3)] (seg_fields a3)),
      b)"
  using assms
  by (simp add: build_message_without_header_flag build_def SEGMENT_DELIMITER_def)

theorem build_message_three_segments_witness:
  "build_message now0 three_segment_builder =
     (Inr (''AAA|x'' @ [CHR 0x0D] @ ''BBB|'' @ [CHR 0x0D] @ ''CCC|y|z''),
      three_segment_builder)"
proof -
  have c: "\<not> include_msh (config three_segment_builder)"
    by (simp add: three_segment_builder_def HL7Builder_init_def HL7Config_init_def)
  have s: "segments three_segment_builder =
      [(HL7Segment_init ''AAA'' HL7EncodingCharacters_init)\<lparr>seg_fields := [''x'']\<rparr>,
       HL7Segment_init ''BBB'' HL7EncodingCharacters_init,
       (HL7Segment_init ''CCC'' HL7EncodingCharacters_init)\<lparr>seg_fields := [''y'', ''z'']\<rparr>]"
    by (simp add: three_segment_builder_def)
  show ?thesis
    using build_message_three_segments [OF c s, of now0]
    by (simp add: HL7Segment_init_def HL7EncodingCharacters_init_def)
qed

text \<open>
  Claim C5 (the code departs from it). A builder with the default configuration
  (\<^verbatim>\<open>include_msh\<close> on) that holds one \<^verbatim>\<open>PID\<close> segment and no header is serialized to a text
  that begins with \<^verbatim>\<open>PID|\<close>: \<^verbatim>\<open>build_message\<close> calls \<^verbatim>\<open>add_msh_segment\<close>, which appends, so
  the synthesized header is the second and last segment and not the leading one. On a
  builder that holds no segment the same call gives a text that begins with \<^verbatim>\<open>MSH|\<close>.
\<close>

theorem build_message_header_not_leading:
  "include_msh (config headerless_builder) \<and>
   map segment_id (segments headerless_builder) = [''PID''] \<and>
   map segment_id (segments (snd (build_message now0 headerless_builder)))
     = [''PID'', ''MSH''] \<and>
   map_sum id (take 4) (fst (build_message now0 headerless_builder)) = Inr ''PID|'' \<and>
   map segment_id (segments (snd (build_message now0 fresh_builder))) = [''MSH''] \<and>
   map_sum id (take 4) (fst (build_message now0 fresh_builder)) = Inr ''MSH|''"
proof -
  have c: "include_msh (config headerless_builder)" "include_msh (config fresh_builder)"
    by (simp_all add: headerless_builder_def fresh_builder_def HL7Builder_init_def
        HL7Config_init_def)
  have s: "segments headerless_builder = [empty_segment]" "segments fresh_builder = []"
    by (simp_all add: headerless_builder_def fresh_builder_def HL7Builder_init_def)
  have n: "\<not> list_ex (\<lambda>s. segment_id s = ''MSH'') (segments headerless_builder)"
    "\<not> list_ex (\<lambda>s. segment_id s = ''MSH'') (segments fresh_builder)"
    by (simp_all add: s empty_segment_def HL7Segment_init_def)
  have e: "build empty_segment = ''PID|''" "segment_id empty_segment = ''PID''"
    by (simp_all add: empty_segment_def HL7Segment_init_def build_def
        HL7EncodingCharacters_init_def)
  have enc: "encoding (snd (msh_segment now0 fresh_builder)) = HL7EncodingCharacters_init"
  proof -
    have "\<And>v p. (v, p) \<in> set (msh_fields now0 fresh_builder) \<Longrightarrow> \<exists>x. v = PyStr x"
      by (auto simp add: msh_fields_def)
    from add_fields_strings[OF this,
        where s = "HL7Segment_init ''MSH'' (b_encoding fresh_builder)"]
    show ?thesis
      by (simp add: msh_segment_def HL7Segment_init_def fresh_builder_def HL7Builder_init_def)
  qed
  have m: "take 4 (build (snd (msh_segment now0 fresh_builder))) = ''MSH|''"
    by (simp add: build_def msh_segment_returns enc HL7EncodingCharacters_init_def)
  show ?thesis
    using c(1) m
    by (simp add: build_message_header_absent[OF c(1) n(1)]
        build_message_header_absent[OF c(2) n(2)] s e msh_segment_returns)
qed

section \<open>Reading a response\<close>

lemma item_or_empty_eq:
  "item_or_empty xs i = Inr (if i < length xs then xs ! i else [])"
  by (simp add: item_or_empty_def getitem_in_range)

lemma parse_msh_eq:
  "parse_msh r line =
     Inr (r\<lparr>r_message_type :=
               Some (let parts = str_split (CHR ''|'') line
                     in if 8 < length parts then parts ! 8 else []),
             r_message_control_id :=
               Some (let parts = str_split (CHR ''|'') line
                     in if 9 < length parts then parts ! 9 else [])\<rparr>)"
  by (simp add: parse_msh_def item_or_empty_eq Let_def)

lemma parse_msa_short:
  "length (str_split (CHR ''|'') line) < 2 \<Longrightarrow> parse_msa r line = Inr r"
  by (simp add: parse_msa_def Let_def)

lemma parse_msa_eq:
  assumes "2 \<le> length (str_split (CHR ''|'') line)"
  shows "parse_msa r line =
     (let parts = str_split (CHR ''|'') line;
          c = parts ! 1;
          r1 = r\<lparr>acknowledgment :=
                   Some \<lparr>code = c,
                         message = (if 2 < length parts then parts ! 2 else []),
                         control_id = (if 3 < length parts then parts ! 3 else [])\<rparr>\<rparr>
      in Inr (if c = ''AA'' then r1\<lparr>status := ''accepted''\<rparr>
              else if c = ''AE'' then r1\<lparr>status := ''error''\<rparr>
              else if c = ''AR'' then r1\<lparr>status := ''rejected''\<rparr>
              else r1))"
proof -
  have "getitem (str_split (CHR ''|'') line) 1 = Inr (str_split (CHR ''|'') line ! 1)"
    using assms getitem_in_range[of 1 "str_split (CHR ''|'') line"] by simp
  then show ?thesis
    using assms by (simp add: parse_msa_def item_or_empty_eq Let_def)
qed

lemma parse_msa_segments:
  "\<exists>r1. parse_msa r line = Inr r1 \<and> r_segments r1 = r_segments r"
proof (cases "2 \<le> length (str_split (CHR ''|'') line)")
  case True
  then show ?thesis by (simp add: parse_msa_eq Let_def)
next
  case False
  then show ?thesis by (simp add: parse_msa_short)
qed

lemma parse_line_segments:
  "\<exists>r1. parse_line r line = Inr r1 \<and> r_segments r1 = r_segments r @ [take 3 line]"
proof -
  obtain r1 where "parse_msa r line = Inr r1" "r_segments r1 = r_segments r"
    using parse_msa_segments by blast
  then show ?thesis
    by (simp add: parse_line_def parse_msh_eq)
qed

lemma parse_lines_segments:
  "\<exists>r1. parse_lines r ls = Inr r1 \<and> r_segments r1 = r_segments r @ map (take 3) ls"
proof (induction ls arbitrary: r)
  case Nil
  then show ?case by simp
next
  case (Cons l ls)
  obtain r1 where r1: "parse_line r l = Inr r1" "r_segments r1 = r_segments r @ [take 3 l]"
    using parse_line_segments by blast
  obtain r2 where "parse_lines r1 ls = Inr r2"
    "r_segments r2 = r_segments r1 @ map (take 3) ls"
    using Cons.IH by blast
  with r1 show ?case by simp
qed

lemma parse_hl7_response_returns:
  "\<exists>r. parse_hl7_response hl7_message = Inr r \<and>
       r_segments r = map (take 3) (str_split SEGMENT_DELIMITER hl7_message)"
proof -
  obtain r where
    "parse_lines initial_result (str_split SEGMENT_DELIMITER hl7_message) = Inr r"
    "r_segments r =
       r_segments initial_result @ map (take 3) (str_split SEGMENT_DELIMITER hl7_message)"
    using parse_lines_segments by blast
  then show ?thesis
    by (simp add: parse_hl7_response_def initial_result_def)
qed

text \<open>
  Claim C10. For every input text \<^verbatim>\<open>parse_hl7_response\<close> returns a result and raises
  nothing (each indexed read of the split parts is in range where it is made), and the
  \<^verbatim>\<open>segments\<close> list of the result holds, for each line of the text split at the carriage
  return and in the same order, the first three characters of the line, or the whole line
  when it is shorter.
\<close>

theorem parse_hl7_response_total:
  "\<exists>r. parse_hl7_response hl7_message = Inr r \<and>
       r_segments r = map (take 3) (str_split SEGMENT_DELIMITER hl7_message) \<and>
       length (r_segments r) = length (str_split SEGMENT_DELIMITER hl7_message)"
proof -
  obtain r where "parse_hl7_response hl7_message = Inr r"
    "r_segments r = map (take 3) (str_split SEGMENT_DELIMITER hl7_message)"
    using parse_hl7_response_returns by blast
  then show ?thesis by simp
qed

theorem parse_hl7_response_total_witness:
  "map_sum id r_segments (parse_hl7_response []) = Inr [[]] \<and>
   map_sum id r_segments
     (parse_hl7_response (''MS'' @ [CHR 0x0D] @ ''MSH|a'' @ [CHR 0x0D] @ ''MSA''))
     = Inr [''MS'', ''MSH'', ''MSA'']"
proof -
  obtain r1 where r1: "parse_hl7_response [] = Inr r1"
    "r_segments r1 = map (take 3) (str_split SEGMENT_DELIMITER [])"
    using parse_hl7_response_total [of "[]"] by blast
  obtain r2 where r2:
    "parse_hl7_response (''MS'' @ [CHR 0x0D] @ ''MSH|a'' @ [CHR 0x0D] @ ''MSA'') = Inr r2"
    "r_segments r2 = map (take 3)
       (str_split SEGMENT_DELIMITER (''MS'' @ [CHR 0x0D] @ ''MSH|a'' @ [CHR 0x0D] @ ''MSA''))"
    using parse_hl7_response_total [of "''MS'' @ [CHR 0x0D] @ ''MSH|a'' @ [CHR 0x0D] @ ''MSA''"]
    by blast
  show ?thesis
    using r1 r2 by (simp add: SEGMENT_DELIMITER_def)
qed

section \<open>The status of a response\<close>

lemma msa_not_msh: "startswith line ''MSA'' \<Longrightarrow> \<not> startswith line ''MSH''"
  by (auto simp add: startswith_def)

text \<open>A line that begins with \<^verbatim>\<open>MSA\<close> and has a second part stores that part as the code and
  sets the status when the code is one of the three; any other line changes neither.\<close>

lemma parse_line_ack:
  assumes "startswith line ''MSA''" and "2 \<le> length (str_split (CHR ''|'') line)"
  shows "\<exists>r1. parse_line r line = Inr r1 \<and>
     map_option code (acknowledgment r1) = Some (str_split (CHR ''|'') line ! 1) \<and>
     status r1 =
       (case code_status (str_split (CHR ''|'') line ! 1) of
          None \<Rightarrow> status r
        | Some st \<Rightarrow> st)"
  using msa_not_msh[OF assms(1)] assms
  by (simp add: parse_line_def parse_msa_eq[OF assms(2)] Let_def code_status_def)

lemma parse_line_other:
  assumes "\<not> (startswith line ''MSA'' \<and> 2 \<le> length (str_split (CHR ''|'') line))"
  shows "\<exists>r1. parse_line r line = Inr r1 \<and>
     acknowledgment r1 = acknowledgment r \<and> status r1 = status r"
proof (cases "startswith line ''MSA''")
  case True
  with assms have short: "length (str_split (CHR ''|'') line) < 2" by simp
  show ?thesis
    using msa_not_msh[OF True] True
    by (simp add: parse_line_def parse_msa_short[OF short])
next
  case False
  then show ?thesis by (simp add: parse_line_def parse_msh_eq)
qed

lemma parse_lines_ack:
  "\<exists>r1. parse_lines r ls = Inr r1 \<and>
     map_option code (acknowledgment r1) =
       (if line_codes ls = [] then map_option code (acknowledgment r)
        else Some (last (line_codes ls))) \<and>
     status r1 =
       (if List.map_filter code_status (line_codes ls) = [] then status r
        else last (List.map_filter code_status (line_codes ls)))"
proof (induction ls arbitrary: r)
  case Nil
  then show ?case by (simp add: line_codes_def List.map_filter_simps)
next
  case (Cons l ls)
  show ?case
  proof (cases "startswith l ''MSA'' \<and> 2 \<le> length (str_split (CHR ''|'') l)")
    case True
    define c where "c = str_split (CHR ''|'') l ! 1"
    obtain r1 where r1: "parse_line r l = Inr r1"
      "map_option code (acknowledgment r1) = Some c"
      "status r1 = (case code_status c of None \<Rightarrow> status r | Some st \<Rightarrow> st)"
      using parse_line_ack[of l r] True unfolding c_def by blast
    have codes: "line_codes (l # ls) = c # line_codes ls"
      using True by (simp add: line_codes_def c_def)
    obtain r2 where r2: "parse_lines r1 ls = Inr r2"
      "map_option code (acknowledgment r2) =
         (if line_codes ls = [] then map_option code (acknowledgment r1)
          else Some (last (line_codes ls)))"
      "status r2 =
         (if List.map_filter code_status (line_codes ls) = [] then status r1
          else last (List.map_filter code_status (line_codes ls)))"
      using Cons.IH[of r1] by blast
    have run: "parse_lines r (l # ls) = Inr r2"
      using r1(1) r2(1) by simp
    have ack: "map_option code (acknowledgment r2) = Some (last (c # line_codes ls))"
      unfolding r2(2) r1(2) by simp
    have st: "status r2 =
        (if List.map_filter code_status (c # line_codes ls) = [] then status r
         else last (List.map_filter code_status (c # line_codes ls)))"
      unfolding r2(3) r1(3)
      by (cases "code_status c") (simp_all add: List.map_filter_simps)
    show ?thesis
      unfolding codes using run ack st by simp
  next
    case False
    obtain r1 where r1: "parse_line r l = Inr r1"
      "acknowledgment r1 = acknowledgment r" "status r1 = status r"
      using parse_line_other[OF False] by blast
    have codes: "line_codes (l # ls) = line_codes ls"
      using False by (simp add: line_codes_def)
    obtain r2 where r2: "parse_lines r1 ls = Inr r2"
      "map_option code (acknowledgment r2) =
         (if line_codes ls = [] then map_option code (acknowledgment r1)
          else Some (last (line_codes ls)))"
      "status r2 =
         (if List.map_filter code_status (line_codes ls) = [] then status r1
          else last (List.map_filter code_status (line_codes ls)))"
      using Cons.IH[of r1] by blast
    show ?thesis
      using r1 r2 unfolding codes by simp
  qed
qed

lemma last_map_filter_code_status:
  assumes "cs \<noteq> []" and "code_status (last cs) = Some st"
  shows "List.map_filter code_status cs \<noteq> [] \<and> last (List.map_filter code_status cs) = st"
  using assms
proof (induction cs)
  case Nil
  then show ?case by simp
next
  case (Cons c cs)
  show ?case
  proof (cases "cs = []")
    case True
    with Cons.prems show ?thesis by (simp add: List.map_filter_simps)
  next
    case False
    with Cons show ?thesis
      by (cases "code_status c") (simp_all add: List.map_filter_simps)
  qed
qed

lemma map_filter_code_status_none:
  "list_all (\<lambda>c. code_status c = None) cs \<Longrightarrow> List.map_filter code_status cs = []"
  by (induction cs) (simp_all add: List.map_filter_simps)

text \<open>
  Claim C8, as amended. The text is split at the carriage return and the lines are read in
  order. The result stores as acknowledgment code the last of the acknowledgment codes of
  the response, and no acknowledgment when there is none. The status is \<^verbatim>\<open>accepted\<close>,
  \<^verbatim>\<open>error\<close> or \<^verbatim>\<open>rejected\<close> when the stored code is \<^verbatim>\<open>AA\<close>, \<^verbatim>\<open>AE\<close> or \<^verbatim>\<open>AR\<close>; it is \<^verbatim>\<open>unknown\<close>
  when there is no acknowledgment line. Any other stored code leaves the status as the
  earlier acknowledgment lines made it: in every case the status is the one that goes with
  the last acknowledgment code among \<^verbatim>\<open>AA\<close>, \<^verbatim>\<open>AE\<close>, \<^verbatim>\<open>AR\<close>, and \<^verbatim>\<open>unknown\<close> when no
  acknowledgment code is among them, as in a response whose one acknowledgment line has
  another code.
\<close>

theorem parse_status_classification:
  "\<exists>r. parse_hl7_response hl7_message = Inr r \<and>
     map_option code (acknowledgment r) =
       (if ack_codes hl7_message = [] then None else Some (last (ack_codes hl7_message))) \<and>
     status r =
       (if List.map_filter code_status (ack_codes hl7_message) = [] then ''unknown''
        else last (List.map_filter code_status (ack_codes hl7_message))) \<and>
     (ack_codes hl7_message = [] \<longrightarrow> acknowledgment r = None \<and> status r = ''unknown'') \<and>
     (map_option code (acknowledgment r) = Some ''AA'' \<longrightarrow> status r = ''accepted'') \<and>
     (map_option code (acknowledgment r) = Some ''AE'' \<longrightarrow> status r = ''error'') \<and>
     (map_option code (acknowledgment r) = Some ''AR'' \<longrightarrow> status r = ''rejected'') \<and>
     (list_all (\<lambda>c. code_status c = None) (ack_codes hl7_message) \<longrightarrow>
        status r = ''unknown'')"
proof -
  obtain r where r: "parse_hl7_response hl7_message = Inr r"
    and ack: "map_option code (acknowledgment r) =
       (if ack_codes hl7_message = [] then None else Some (last (ack_codes hl7_message)))"
    and st: "status r =
       (if List.map_filter code_status (ack_codes hl7_message) = [] then ''unknown''
        else last (List.map_filter code_status (ack_codes hl7_message)))"
    using parse_lines_ack[of initial_result "str_split SEGMENT_DELIMITER hl7_message"]
    by (auto simp add: parse_hl7_response_def ack_codes_def initial_result_def)
  have none: "acknowledgment r = None \<and> status r = ''unknown''"
    if "ack_codes hl7_message = []"
    using that ack st by (simp add: List.map_filter_simps)
  have known: "status r = st'"
    if "map_option code (acknowledgment r) = Some c" and "code_status c = Some st'" for c st'
  proof -
    from that(1) ack have ne: "ack_codes hl7_message \<noteq> []"
      and l: "last (ack_codes hl7_message) = c"
      by (auto split: if_splits)
    from last_map_filter_code_status[OF ne] l that(2) st show ?thesis by simp
  qed
  have other: "status r = ''unknown''"
    if "list_all (\<lambda>c. code_status c = None) (ack_codes hl7_message)"
    using map_filter_code_status_none[OF that] st by simp
  have aa: "code_status ''AA'' = Some ''accepted''" "code_status ''AE'' = Some ''error''"
    "code_status ''AR'' = Some ''rejected''"
    by (simp_all add: code_status_def)
  show ?thesis
    using r ack st none known[OF _ aa(1)] known[OF _ aa(2)] known[OF _ aa(3)] other
    by blast
qed

theorem parse_status_classification_witness:
  "map_sum id status (parse_hl7_response (ack_message ''AA'')) = Inr ''accepted'' \<and>
   map_sum id status (parse_hl7_response (ack_message ''AE'')) = Inr ''error'' \<and>
   map_sum id status (parse_hl7_response (ack_message ''AR'')) = Inr ''rejected'' \<and>
   map_sum id status (parse_hl7_response (ack_message ''CA'')) = Inr ''unknown'' \<and>
   map_sum id status (parse_hl7_response ''MSH|x'') = Inr ''unknown'' \<and>
   map_sum id status (parse_hl7_response two_ack_message) = Inr ''accepted''"
proof -
  have codes: "ack_codes (ack_message ''AA'') = [''AA'']"
    "ack_codes (ack_message ''AE'') = [''AE'']"
    "ack_codes (ack_message ''AR'') = [''AR'']"
    "ack_codes (ack_message ''CA'') = [''CA'']"
    "ack_codes ''MSH|x'' = []"
    "ack_codes two_ack_message = [''AA'', ''XX'']"
    by (simp_all add: ack_codes_def line_codes_def ack_message_def two_ack_message_def
        SEGMENT_DELIMITER_def startswith_def)
  have cs: "List.map_filter code_status [''AA'', ''XX''] = [''accepted'']"
    "list_all (\<lambda>c. code_status c = None) [''CA'']"
    by (simp_all add: List.map_filter_simps code_status_def)
  have aa: "map_sum id status (parse_hl7_response (ack_message ''AA'')) = Inr ''accepted''"
  proof -
    from parse_status_classification [of "ack_message ''AA''"] obtain r where
      p: "parse_hl7_response (ack_message ''AA'') = Inr r" and
      a: "map_option code (acknowledgment r) =
           (if ack_codes (ack_message ''AA'') = [] then None
            else Some (last (ack_codes (ack_message ''AA''))))" and
      i: "map_option code (acknowledgment r) = Some ''AA'' \<longrightarrow> status r = ''accepted''"
      by blast
    from a have "map_option code (acknowledgment r) = Some ''AA''"
      unfolding codes by simp
    with i p show ?thesis by simp
  qed
  have ae: "map_sum id status (parse_hl7_response (ack_message ''AE'')) = Inr ''error''"
  proof -
    from parse_status_classification [of "ack_message ''AE''"] obtain r where
      p: "parse_hl7_response (ack_message ''AE'') = Inr r" and
      a: "map_option code (acknowledgment r) =
           (if ack_codes (ack_message ''AE'') = [] then None
            else Some (last (ack_codes (ack_message ''AE''))))" and
      i: "map_option code (acknowledgment r) = Some ''AE'' \<longrightarrow> status r = ''error''"
      by blast
    from a have "map_option code (acknowledgment r) = Some ''AE''"
      unfolding codes by simp
    with i p show ?thesis by simp
  qed
  have ar: "map_sum id status (parse_hl7_response (ack_message ''AR'')) = Inr ''rejected''"
  proof -
    from parse_status_classification [of "ack_message ''AR''"] obtain r where
      p: "parse_hl7_response (ack_message ''AR'') = Inr r" and
      a: "map_option code (acknowledgment r) =
           (if ack_codes (ack_message ''AR'') = [] then None
            else Some (last (ack_codes (ack_message ''AR''))))" and
      i: "map_option code (acknowledgment r) = Some ''AR'' \<longrightarrow> status r = ''rejected''"
      by blast
    from a have "map_option code (acknowledgment r) = Some ''AR''"
      unfolding codes by simp
    with i p show ?thesis by simp
  qed
  have ca: "map_sum id status (parse_hl7_response (ack_message ''CA'')) = Inr ''unknown''"
  proof -
    from parse_status_classification [of "ack_message ''CA''"] obtain r where
      p: "parse_hl7_response (ack_message ''CA'') = Inr r" and
      i: "list_all (\<lambda>c. code_status c = None) (ack_codes (ack_message ''CA'')) \<longrightarrow>
            status r = ''unknown''"
      by blast
    from i cs(2) p show ?thesis unfolding codes by simp
  qed
  have no: "map_sum id status (parse_hl7_response ''MSH|x'') = Inr ''unknown''"
  proof -
    from parse_status_classification [of "''MSH|x''"] obtain r where
      p: "parse_hl7_response ''MSH|x'' = Inr r" and
      i: "ack_codes ''MSH|x'' = [] \<longrightarrow> acknowledgment r = None \<and> status r = ''unknown''"
      by blast
    from i codes(5) p show ?thesis by simp
  qed
  have two: "map_sum id status (parse_hl7_response two_ack_message) = Inr ''accepted''"
  proof -
    from parse_status_classification [of two_ack_message] obtain r where
      p: "parse_hl7_response two_ack_message = Inr r" and
      i: "status r =
           (if List.map_filter code_status (ack_codes two_ack_message) = [] then ''unknown''
            else last (List.map_filter code_status (ack_codes two_ack_message)))"
      by blast
    from i have "status r = ''accepted''"
      unfolding codes cs by simp
    with p show ?thesis by simp
  qed
  from aa ae ar ca no two show ?thesis
    by (intro conjI)
qed

text \<open>
  Claim C8 as stated fails: in a response with the two lines \<^verbatim>\<open>MSA|AA\<close> and \<^verbatim>\<open>MSA|XX\<close> the
  acknowledgment code of the result is \<^verbatim>\<open>XX\<close>, a code other than the three, and the status
  is \<^verbatim>\<open>accepted\<close>, not \<^verbatim>\<open>unknown\<close>.
\<close>

theorem parse_other_code_keeps_earlier_status:
  "map_sum id status (parse_hl7_response two_ack_message) = Inr ''accepted'' \<and>
   map_sum id acknowledgment (parse_hl7_response two_ack_message) =
     Inr (Some \<lparr>code = ''XX'', message = [], control_id = []\<rparr>) \<and>
   two_ack_message = ''MSA|AA'' @ [CHR 0x0D] @ ''MSA|XX''"
  by code_simp

end
